theory Spec2Isabelle
  imports Main
begin

section \<open>Strings, characters and the built-in string operations\<close>

text \<open>
  A Python \<open>str\<close> is a sequence of Unicode code points and \<open>len\<close> counts code points,
  so a string is modelled as a list of code points. String literals of the source are
  written through \<open>lit\<close>.
\<close>

type_synonym ustr = "nat list"

definition lit :: "string \<Rightarrow> ustr" where
  "lit s = map of_char s"

text \<open>
  \<open>str.strip()\<close> without argument removes the characters for which \<open>str.isspace\<close>
  holds. These are the code points of CPython's whitespace table: U+0009..U+000D,
  U+001C..U+0020, U+0085, U+00A0, U+1680, U+2000..U+200A, U+2028, U+2029, U+202F,
  U+205F and U+3000.
\<close>

definition isspace :: "nat \<Rightarrow> bool" where
  "isspace c =
     ((9 \<le> c \<and> c \<le> 13) \<or> (28 \<le> c \<and> c \<le> 32) \<or> c = 133 \<or> c = 160 \<or> c = 5760
      \<or> (8192 \<le> c \<and> c \<le> 8202) \<or> c = 8232 \<or> c = 8233 \<or> c = 8239 \<or> c = 8287
      \<or> c = 12288)"

text \<open>
  \<open>str.isprintable\<close>: in the ASCII range exactly U+0020..U+007E are printable. Beyond
  ASCII the answer is read from the Unicode character database, which is not part of
  the program: it is the parameter \<open>tab\<close>.
\<close>

definition isprintable :: "(nat \<Rightarrow> bool) \<Rightarrow> nat \<Rightarrow> bool" where
  "isprintable tab c = (if c < 128 then 32 \<le> c \<and> c < 127 else tab c)"

definition lstrip :: "ustr \<Rightarrow> ustr" where
  "lstrip s = dropWhile isspace s"

definition rstrip :: "ustr \<Rightarrow> ustr" where
  "rstrip s = rev (dropWhile isspace (rev s))"

definition strip :: "ustr \<Rightarrow> ustr" where
  "strip s = rstrip (lstrip s)"

text \<open>\<open>s.split('\n')\<close>: the pieces between newlines; the empty string gives one empty piece.\<close>

fun split_nl :: "ustr \<Rightarrow> ustr list" where
  "split_nl [] = [[]]"
| "split_nl (c # cs) =
     (if c = 10 then [] # split_nl cs
      else (c # hd (split_nl cs)) # tl (split_nl cs))"

text \<open>\<open>'\n'.join(lines)\<close>.\<close>

fun join_nl :: "ustr list \<Rightarrow> ustr" where
  "join_nl [] = []"
| "join_nl [l] = l"
| "join_nl (l # ls) = l @ 10 # join_nl ls"

section \<open>The text normalizer\<close>

text \<open>
  The loop of \<open>clean_extracted_text\<close> over \<open>clean_lines\<close>. The lines appended to
  \<open>result_lines\<close> are returned in order; \<open>prev_blank\<close> is the loop's flag.
\<close>

fun blank_loop :: "bool \<Rightarrow> ustr list \<Rightarrow> ustr list" where
  "blank_loop prev_blank [] = []"
| "blank_loop prev_blank (line # rest) =
     (if line \<noteq> [] then line # blank_loop False rest
      else if \<not> prev_blank then [] # blank_loop True rest
      else blank_loop prev_blank rest)"

definition keep_char :: "(nat \<Rightarrow> bool) \<Rightarrow> nat \<Rightarrow> bool" where
  "keep_char tab c = (isprintable tab c \<or> c = 10 \<or> c = 9 \<or> c = 32)"

definition clean_extracted_text :: "(nat \<Rightarrow> bool) \<Rightarrow> ustr \<Rightarrow> ustr" where
  "clean_extracted_text tab text =
     (if text = [] then []
      else
        let clean_text = filter (keep_char tab) text;
            lines = split_nl clean_text;
            clean_lines = map strip lines;
            result_lines = blank_loop False clean_lines
        in strip (join_nl result_lines))"


section \<open>Paths: \<open>os.path.splitext\<close> and \<open>str.lower\<close>\<close>

text \<open>
  \<open>p.rfind(c)\<close>: the largest index holding \<open>c\<close>, or \<open>-1\<close>.
\<close>

definition rfind :: "ustr \<Rightarrow> nat \<Rightarrow> int" where
  "rfind p c =
     (case filter (\<lambda>i. p ! i = c) (rev [0..<length p]) of
        [] \<Rightarrow> - 1
      | i # _ \<Rightarrow> int i)"

text \<open>
  The loop of the standard library's \<open>_splitext\<close> that skips the leading dots of the
  file name: it returns the split at the first character that is not a dot, and
  nothing when it runs into the last dot.
\<close>

function skip_dots :: "ustr \<Rightarrow> int \<Rightarrow> int \<Rightarrow> (ustr \<times> ustr) option" where
  "skip_dots p filenameIndex dotIndex =
     (if filenameIndex < dotIndex then
        (if p ! nat filenameIndex \<noteq> 46
         then Some (take (nat dotIndex) p, drop (nat dotIndex) p)
         else skip_dots p (filenameIndex + 1) dotIndex)
      else None)"
  by pat_completeness auto
termination
  by (relation "measure (\<lambda>(p, i, d). nat (d - i))") auto

declare skip_dots.simps [simp del]

text \<open>
  \<open>os.path.splitext\<close> on a POSIX system (separator \<open>/\<close>, U+002F; extension separator
  \<open>.\<close>, U+002E; no alternative separator).
\<close>

definition splitext :: "ustr \<Rightarrow> ustr \<times> ustr" where
  "splitext p =
     (let sepIndex = rfind p 47;
          dotIndex = rfind p 46
      in if dotIndex > sepIndex then
           (case skip_dots p (sepIndex + 1) dotIndex of
              Some r \<Rightarrow> r
            | None \<Rightarrow> (p, []))
         else (p, []))"

text \<open>
  \<open>str.lower\<close>: on a string of ASCII characters it maps \<open>A..Z\<close> to \<open>a..z\<close>
  character by character. On any other string the result is read from the Unicode
  character database: the parameter \<open>tab\<close>.
\<close>

definition ascii_lower :: "nat \<Rightarrow> nat" where
  "ascii_lower c = (if 65 \<le> c \<and> c \<le> 90 then c + 32 else c)"

definition lower :: "(ustr \<Rightarrow> ustr) \<Rightarrow> ustr \<Rightarrow> ustr" where
  "lower tab s = (if list_all (\<lambda>c. c < 128) s then map ascii_lower s else tab s)"

text \<open>\<open>str(n)\<close> for a page number: the decimal digits.\<close>

fun str_nat :: "nat \<Rightarrow> ustr" where
  "str_nat n = (if n < 10 then [48 + n] else str_nat (n div 10) @ [48 + n mod 10])"

declare str_nat.simps [simp del]

section \<open>Failures, result records and the outside world\<close>

text \<open>
  A failure of a library call is a Python \<open>Exception\<close>; the handlers of the program
  only use its message \<open>str(e)\<close>. A function of the program either returns a value
  (\<open>Inr\<close>) or raises (\<open>Inl\<close>). Interrupts and interpreter exits, which are not
  instances of \<open>Exception\<close>, are not answers of a library call and are left out. The
  lines printed to \<open>sys.stderr\<close> are returned next to the result.
\<close>

datatype exn = Exception ustr

fun str_exn :: "exn \<Rightarrow> ustr" where
  "str_exn (Exception m) = m"

text \<open>
  The records returned are Python dictionaries from the literal keys \<open>text\<close>,
  \<open>length\<close>, \<open>method\<close>, \<open>pages_processed\<close>, \<open>ocr_pages\<close>, \<open>paragraphs\<close> and
  \<open>error\<close> to strings and integers, kept in insertion order.
\<close>

datatype pyval = PyStr ustr | PyInt int

type_synonym dict = "(string \<times> pyval) list"

text \<open>
  What the libraries answer. A page of an opened PDF answers \<open>page.get_text()\<close> (a
  failure to load the page counts as a failure of this call) and the chain
  \<open>get_pixmap\<close>, \<open>tobytes\<close>, \<open>Image.open\<close>, \<open>image_to_string\<close>, which is only run
  inside the inner \<open>try\<close>. An opened document has its pages and the outcome of
  \<open>doc.close()\<close>.
\<close>

record page =
  get_text :: "exn + ustr"
  image_to_string :: "exn + ustr"

record pdf =
  pages :: "page list"
  doc_close :: "exn option"

text \<open>
  The world gives, for every path, the outcome of \<open>fitz.open\<close>, of
  \<open>docx.Document\<close> with the texts of its paragraphs, of importing \<open>textract\<close>,
  running \<open>textract.process\<close> and decoding its bytes, and of opening and reading the
  file as UTF-8 text; the two tables of the Unicode database; and, for the lines
  already printed to \<open>sys.stderr\<close> and a further line, whether writing that line
  succeeds (\<open>None\<close>) or raises, as it does on a closed or full stream.
\<close>

record world =
  printable_tab :: "nat \<Rightarrow> bool"
  lower_tab :: "ustr \<Rightarrow> ustr"
  fitz_open :: "ustr \<Rightarrow> exn + pdf"
  docx_Document :: "ustr \<Rightarrow> exn + ustr list"
  textract_process :: "ustr \<Rightarrow> exn + ustr"
  open_read :: "ustr \<Rightarrow> exn + ustr"
  stderr_write :: "ustr list \<Rightarrow> ustr \<Rightarrow> exn option"

text \<open>\<open>print(line, file=sys.stderr)\<close>: the line is appended, or the write raises.\<close>

definition print_stderr :: "world \<Rightarrow> ustr list \<Rightarrow> ustr \<Rightarrow> exn + ustr list" where
  "print_stderr w err line =
     (case stderr_write w err line of
        Some e \<Rightarrow> Inl e
      | None \<Rightarrow> Inr (err @ [line]))"

section \<open>PDF extraction\<close>

record pdf_vars =
  full_text :: ustr
  pages_processed :: int
  ocr_pages :: int

text \<open>
  The \<open>for\<close> loop over the pages. \<open>page_num\<close> is the index of \<open>enumerate\<close>, \<open>err\<close> the
  lines printed to \<open>sys.stderr\<close> so far. A failing \<open>get_text\<close> leaves the loop with the
  exception; a failing OCR chain is caught and printed. The \<open>print\<close> of the handler is
  itself inside the outer \<open>try\<close>: when it raises, the loop is left with its exception.
\<close>

fun pdf_loop ::
  "world \<Rightarrow> page list \<Rightarrow> nat \<Rightarrow> pdf_vars \<Rightarrow> ustr list \<Rightarrow> (exn + pdf_vars) \<times> ustr list" where
  "pdf_loop w [] page_num v err = (Inr v, err)"
| "pdf_loop w (pg # rest) page_num v err =
     (case get_text pg of
        Inl e \<Rightarrow> (Inl e, err)
      | Inr text \<Rightarrow>
          if strip text \<noteq> [] then
            pdf_loop w rest (page_num + 1)
              (v\<lparr>full_text := full_text v @ text @ [10],
                 pages_processed := pages_processed v + 1\<rparr>) err
          else
            (case image_to_string pg of
               Inl ocr_error \<Rightarrow>
                 (case print_stderr w err
                         (lit ''OCR failed for page '' @ str_nat page_num @ lit '': ''
                            @ str_exn ocr_error) of
                    Inl e \<Rightarrow> (Inl e, err)
                  | Inr err' \<Rightarrow>
                      pdf_loop w rest (page_num + 1)
                        (v\<lparr>pages_processed := pages_processed v + 1\<rparr>) err')
             | Inr ocr_text \<Rightarrow>
                 if strip ocr_text \<noteq> [] then
                   pdf_loop w rest (page_num + 1)
                     (v\<lparr>full_text := full_text v @ ocr_text @ [10],
                        ocr_pages := ocr_pages v + 1,
                        pages_processed := pages_processed v + 1\<rparr>) err
                 else
                   pdf_loop w rest (page_num + 1)
                     (v\<lparr>pages_processed := pages_processed v + 1\<rparr>) err))"

text \<open>The body of the \<open>try\<close> of \<open>extract_text_from_pdf\<close>.\<close>

definition extract_text_from_pdf_try :: "world \<Rightarrow> ustr \<Rightarrow> (exn + dict) \<times> ustr list" where
  "extract_text_from_pdf_try w file_path =
     (case fitz_open w file_path of
        Inl e \<Rightarrow> (Inl e, [])
      | Inr doc \<Rightarrow>
          (case pdf_loop w (pages doc) 0
                  \<lparr>full_text = [], pages_processed = 0, ocr_pages = 0\<rparr> [] of
             (Inl e, err) \<Rightarrow> (Inl e, err)
           | (Inr v, err) \<Rightarrow>
               (case doc_close doc of
                  Some e \<Rightarrow> (Inl e, err)
                | None \<Rightarrow>
                    let clean_text = clean_extracted_text (printable_tab w) (full_text v)
                    in (Inr [(''text'', PyStr clean_text),
                             (''pages_processed'', PyInt (pages_processed v)),
                             (''ocr_pages'', PyInt (ocr_pages v)),
                             (''length'', PyInt (int (length clean_text))),
                             (''method'', PyStr (lit ''PyMuPDF + OCR''))], err))))"

definition extract_text_from_pdf :: "world \<Rightarrow> ustr \<Rightarrow> (exn + dict) \<times> ustr list" where
  "extract_text_from_pdf w file_path =
     (case extract_text_from_pdf_try w file_path of
        (Inl e, err) \<Rightarrow>
          (Inr [(''error'', PyStr (lit ''PDF extraction failed: '' @ str_exn e))], err)
      | (Inr d, err) \<Rightarrow> (Inr d, err))"

section \<open>DOC and DOCX extraction\<close>

text \<open>
  The second \<open>try\<close> of \<open>extract_text_from_doc\<close>, reached with the lines \<open>err\<close> already
  printed: the textract fallback and its handler. In the body below, the \<open>print\<close> of
  the handler of the first \<open>try\<close> is inside the outer \<open>try\<close>: when it raises, the
  body is left with its exception.
\<close>

definition textract_fallback :: "world \<Rightarrow> ustr \<Rightarrow> ustr list \<Rightarrow> (exn + dict) \<times> ustr list" where
  "textract_fallback w file_path err =
     (case textract_process w file_path of
        Inl textract_error \<Rightarrow>
          (Inr [(''error'',
                 PyStr (lit ''Textract extraction failed: '' @ str_exn textract_error))], err)
      | Inr raw_text \<Rightarrow>
          let clean_text = clean_extracted_text (printable_tab w) raw_text
          in (Inr [(''text'', PyStr clean_text),
                   (''length'', PyInt (int (length clean_text))),
                   (''method'', PyStr (lit ''textract''))], err))"

definition extract_text_from_doc_try :: "world \<Rightarrow> ustr \<Rightarrow> (exn + dict) \<times> ustr list" where
  "extract_text_from_doc_try w file_path =
     (let ext = lower (lower_tab w) (snd (splitext file_path))
      in if ext = lit ''.docx'' then
           (case docx_Document w file_path of
              Inl docx_error \<Rightarrow>
                (case print_stderr w [] (lit ''python-docx failed: '' @ str_exn docx_error) of
                   Inl e \<Rightarrow> (Inl e, [])
                 | Inr err \<Rightarrow> textract_fallback w file_path err)
            | Inr texts \<Rightarrow>
                let paragraphs = filter (\<lambda>t. strip t \<noteq> []) texts;
                    text = join_nl paragraphs
                in if strip text \<noteq> [] then
                     let clean_text = clean_extracted_text (printable_tab w) text
                     in (Inr [(''text'', PyStr clean_text),
                              (''paragraphs'', PyInt (int (length paragraphs))),
                              (''length'', PyInt (int (length clean_text))),
                              (''method'', PyStr (lit ''python-docx''))], [])
                   else textract_fallback w file_path [])
         else textract_fallback w file_path [])"

definition extract_text_from_doc :: "world \<Rightarrow> ustr \<Rightarrow> (exn + dict) \<times> ustr list" where
  "extract_text_from_doc w file_path =
     (case extract_text_from_doc_try w file_path of
        (Inl e, err) \<Rightarrow>
          (Inr [(''error'', PyStr (lit ''Document extraction failed: '' @ str_exn e))], err)
      | (Inr d, err) \<Rightarrow> (Inr d, err))"

section \<open>The dispatcher\<close>

definition extract_text_try :: "world \<Rightarrow> ustr \<Rightarrow> (exn + dict) \<times> ustr list" where
  "extract_text_try w file_path =
     (let ext = lower (lower_tab w) (snd (splitext file_path))
      in if ext = lit ''.pdf'' then extract_text_from_pdf w file_path
         else if ext = lit ''.doc'' \<or> ext = lit ''.docx'' then
           extract_text_from_doc w file_path
         else if ext = lit ''.txt'' then
           (case open_read w file_path of
              Inl e \<Rightarrow> (Inl e, [])
            | Inr text \<Rightarrow>
                let clean_text = clean_extracted_text (printable_tab w) text
                in (Inr [(''text'', PyStr clean_text),
                         (''length'', PyInt (int (length clean_text))),
                         (''method'', PyStr (lit ''direct text read''))], []))
         else
           (Inr [(''error'',
                  PyStr (lit ''Unsupported file type: '' @ ext
                       @ lit ''. Only PDF, DOC, DOCX, TXT supported.''))], []))"

definition extract_text :: "world \<Rightarrow> ustr \<Rightarrow> (exn + dict) \<times> ustr list" where
  "extract_text w file_path =
     (case extract_text_try w file_path of
        (Inl e, err) \<Rightarrow>
          (Inr [(''error'', PyStr (lit ''Failed to extract text: '' @ str_exn e))], err)
      | (Inr d, err) \<Rightarrow> (Inr d, err))"


section \<open>Notions used to state the properties\<close>

text \<open>Trimming both ends of a list, and lists that such a trim leaves unchanged.\<close>

definition trim_ends :: "('a \<Rightarrow> bool) \<Rightarrow> 'a list \<Rightarrow> 'a list" where
  "trim_ends P xs = rev (dropWhile P (rev (dropWhile P xs)))"

definition trimmed :: "('a \<Rightarrow> bool) \<Rightarrow> 'a list \<Rightarrow> bool" where
  "trimmed P xs = (xs = [] \<or> (\<not> P (hd xs) \<and> \<not> P (last xs)))"

text \<open>A list of lines has no run of blank lines longer than one.\<close>

definition not_both_blank :: "ustr \<Rightarrow> ustr \<Rightarrow> bool" where
  "not_both_blank a b = (\<not> (a = [] \<and> b = []))"

definition blank_run_free :: "ustr list \<Rightarrow> bool" where
  "blank_run_free ls = successively not_both_blank ls"

text \<open>
  The collapse of blank-line runs in the words of the specification: of every run of
  consecutive empty lines the first one stays and the others go, that is, a line is
  deleted exactly when it is empty and the line before it is empty too. Every line is
  paired with its predecessor (\<open>None\<close> for the first line).
\<close>

definition collapse_blank_runs :: "ustr list \<Rightarrow> ustr list" where
  "collapse_blank_runs ls =
     map snd (filter (\<lambda>(prev, l). \<not> (prev = Some [] \<and> l = []))
                (zip (None # map Some ls) ls))"

text \<open>Reading a result record.\<close>

definition has_key :: "dict \<Rightarrow> string \<Rightarrow> bool" where
  "has_key d k = (map_of d k \<noteq> None)"

definition success_record :: "dict \<Rightarrow> bool" where
  "success_record d = (has_key d ''text'' \<and> has_key d ''method'' \<and> \<not> has_key d ''error'')"

definition error_record :: "dict \<Rightarrow> bool" where
  "error_record d = (case d of [(k, PyStr m)] \<Rightarrow> k = ''error'' | _ \<Rightarrow> False)"

text \<open>
  Pages of a PDF: a page yields native text; OCR is invoked on a page (its native text
  is empty or whitespace-only); OCR is invoked and returns text with something other
  than whitespace; OCR is invoked and returns a non-empty string; OCR is invoked and
  raises; OCR is invoked and returns nothing but whitespace.
\<close>

definition native_page :: "page \<Rightarrow> bool" where
  "native_page pg = (case get_text pg of Inl e \<Rightarrow> False | Inr t \<Rightarrow> strip t \<noteq> [])"

definition ocr_invoked :: "page \<Rightarrow> bool" where
  "ocr_invoked pg = (case get_text pg of Inl e \<Rightarrow> False | Inr t \<Rightarrow> strip t = [])"

definition ocr_gave_text :: "page \<Rightarrow> bool" where
  "ocr_gave_text pg =
     (ocr_invoked pg \<and> (case image_to_string pg of Inl e \<Rightarrow> False | Inr t \<Rightarrow> strip t \<noteq> []))"

definition ocr_gave_nonempty :: "page \<Rightarrow> bool" where
  "ocr_gave_nonempty pg =
     (ocr_invoked pg \<and> (case image_to_string pg of Inl e \<Rightarrow> False | Inr t \<Rightarrow> t \<noteq> []))"

definition ocr_raised :: "page \<Rightarrow> bool" where
  "ocr_raised pg =
     (ocr_invoked pg \<and> (case image_to_string pg of Inl e \<Rightarrow> True | Inr t \<Rightarrow> False))"

definition ocr_gave_nothing :: "page \<Rightarrow> bool" where
  "ocr_gave_nothing pg =
     (ocr_invoked pg \<and> (case image_to_string pg of Inl e \<Rightarrow> False | Inr t \<Rightarrow> strip t = []))"

definition get_text_ok :: "page \<Rightarrow> bool" where
  "get_text_ok pg = (case get_text pg of Inl e \<Rightarrow> False | Inr t \<Rightarrow> True)"

text \<open>Every write to \<open>sys.stderr\<close> succeeds.\<close>

definition stderr_writable :: "world \<Rightarrow> bool" where
  "stderr_writable w = (\<forall>err line. stderr_write w err line = None)"

text \<open>The lines a page leaves on \<open>sys.stderr\<close>.\<close>

definition ocr_diagnostic :: "nat \<Rightarrow> page \<Rightarrow> ustr list" where
  "ocr_diagnostic page_num pg =
     (case image_to_string pg of
        Inl e \<Rightarrow> [lit ''OCR failed for page '' @ str_nat page_num @ lit '': '' @ str_exn e]
      | Inr t \<Rightarrow> [])"

text \<open>
  A record whose \<open>text\<close> is a normalized string, that is, one the normalizer leaves
  as it is, and whose \<open>length\<close> is the number of characters of that \<open>text\<close>.
\<close>

definition normalized_success :: "(nat \<Rightarrow> bool) \<Rightarrow> dict \<Rightarrow> bool" where
  "normalized_success tab d =
     (case map_of d ''text'' of
        Some (PyStr t) \<Rightarrow>
          clean_extracted_text tab t = t
          \<and> map_of d ''length'' = Some (PyInt (int (length t)))
      | _ \<Rightarrow> False)"

section \<open>A small world for the examples\<close>

definition enoent :: exn where
  "enoent = Exception (lit ''No such file or directory'')"

definition one_page :: "exn + ustr \<Rightarrow> exn + ustr \<Rightarrow> pdf" where
  "one_page native recognised =
     \<lparr>pages = [\<lparr>get_text = native, image_to_string = recognised\<rparr>], doc_close = None\<rparr>"

text \<open>
  \<open>native.pdf\<close> has one page with a text layer; \<open>scan.pdf\<close> one page without, on
  which OCR reads a word; on the page of \<open>space.pdf\<close> OCR returns a single space, on
  that of \<open>empty.pdf\<close> the empty string; in \<open>torn.pdf\<close> OCR raises on the first page
  and the second page has a text layer. \<open>report.docx\<close> has three paragraphs with
  content and one of two spaces. \<open>notes.txt\<close> holds \<open>A\n\n\nB\n\<close>. No other file
  exists, and textract is not installed. Writing to \<open>sys.stderr\<close> succeeds in
  \<open>demo_world\<close>; in \<open>full_world\<close>, the same world with \<open>sys.stderr\<close> on a full
  device, every write raises.
\<close>

definition demo_pdf :: "ustr \<Rightarrow> exn + pdf" where
  "demo_pdf p =
     (if p = lit ''native.pdf'' then Inr (one_page (Inr (lit ''Hello'')) (Inr []))
      else if p = lit ''scan.pdf'' then Inr (one_page (Inr []) (Inr (lit ''Scanned'')))
      else if p = lit ''space.pdf'' then Inr (one_page (Inr []) (Inr (lit '' '')))
      else if p = lit ''empty.pdf'' then Inr (one_page (Inr []) (Inr []))
      else if p = lit ''torn.pdf'' then
        Inr \<lparr>pages = [\<lparr>get_text = Inr [],
                        image_to_string = Inl (Exception (lit ''tesseract is not installed''))\<rparr>,
                      \<lparr>get_text = Inr (lit ''Page two''), image_to_string = Inr []\<rparr>],
             doc_close = None\<rparr>
      else Inl enoent)"

definition demo_world :: world where
  "demo_world =
     \<lparr>printable_tab = (\<lambda>c. False),
      lower_tab = (\<lambda>s. s),
      fitz_open = demo_pdf,
      docx_Document = (\<lambda>p. if p = lit ''report.docx''
                            then Inr [lit ''One'', lit ''  '', lit ''Two'', lit ''Three'']
                            else Inl enoent),
      textract_process = (\<lambda>p. Inl (Exception (lit ''No module named textract''))),
      open_read = (\<lambda>p. if p = lit ''notes.txt''
                        then Inr [65, 10, 10, 10, 66, 10]
                        else Inl enoent),
      stderr_write = (\<lambda>err line. None)\<rparr>"

definition full_world :: world where
  "full_world =
     demo_world\<lparr>stderr_write :=
       (\<lambda>err line. Some (Exception (lit ''[Errno 28] No space left on device'')))\<rparr>"


section \<open>Properties of the normalizer\<close>

subsection \<open>Trimming\<close>

lemma not_both_blank_flip: "(\<lambda>a b. not_both_blank b a) = not_both_blank"
  by (auto simp: not_both_blank_def fun_eq_iff)

lemma strip_trim: "strip s = trim_ends isspace s"
  by (simp add: strip_def lstrip_def rstrip_def trim_ends_def)

lemma last_dropWhile: "dropWhile P xs \<noteq> [] \<Longrightarrow> last (dropWhile P xs) = last xs"
  by (induction xs) auto

lemma trimmed_trim_ends: "trimmed P (trim_ends P xs)"
proof (cases "dropWhile P xs = []")
  case True
  show ?thesis unfolding trim_ends_def True by (simp add: trimmed_def)
next
  case False
  define ys where "ys = dropWhile P xs"
  define zs where "zs = dropWhile P (rev ys)"
  from False have ys: "ys \<noteq> []" "\<not> P (hd ys)"
    unfolding ys_def by (simp_all add: hd_dropWhile)
  then have "hd ys \<in> set (rev ys)" by simp
  with ys have zs: "zs \<noteq> []" unfolding zs_def by auto
  then have "\<not> P (hd zs)" unfolding zs_def by (rule hd_dropWhile)
  moreover from zs have "last zs = hd ys"
    unfolding zs_def using ys by (simp add: last_dropWhile last_rev)
  ultimately show ?thesis
    using zs ys by (simp add: trim_ends_def trimmed_def ys_def[symmetric] zs_def[symmetric] hd_rev last_rev)
qed

lemma trim_ends_id: "trimmed P xs \<Longrightarrow> trim_ends P xs = xs"
proof (cases "xs = []")
  case True
  then show ?thesis by (simp add: trim_ends_def)
next
  case False
  assume "trimmed P xs"
  with False have h: "\<not> P (hd xs)" "\<not> P (last xs)" by (simp_all add: trimmed_def)
  from h(1) False have "dropWhile P xs = xs" by (simp add: dropWhile_eq_self_iff)
  moreover from h(2) False have "dropWhile P (rev xs) = rev xs"
    by (simp add: dropWhile_eq_self_iff hd_rev)
  ultimately show ?thesis by (simp add: trim_ends_def)
qed

lemma set_trim_ends: "set (trim_ends P xs) \<subseteq> set xs"
  by (auto simp: trim_ends_def dest!: set_dropWhileD)

lemma successively_dropWhile: "successively Q xs \<Longrightarrow> successively Q (dropWhile P xs)"
  by (induction xs) (auto simp: successively_Cons)

lemma successively_nbb_rev: "successively not_both_blank (rev xs) = successively not_both_blank xs"
  by (simp only: successively_rev not_both_blank_flip)

lemma blank_run_free_trim: "blank_run_free ls \<Longrightarrow> blank_run_free (trim_ends P ls)"
proof -
  assume "blank_run_free ls"
  then have "successively not_both_blank (dropWhile P ls)"
    unfolding blank_run_free_def by (rule successively_dropWhile)
  then have "successively not_both_blank (rev (dropWhile P ls))"
    by (simp only: successively_nbb_rev)
  then have "successively not_both_blank (dropWhile P (rev (dropWhile P ls)))"
    by (rule successively_dropWhile)
  then show ?thesis
    unfolding blank_run_free_def trim_ends_def by (simp only: successively_nbb_rev)
qed

subsection \<open>Joining lines\<close>

lemma join_nl_Cons: "join_nl (l # ls) = (if ls = [] then l else l @ 10 # join_nl ls)"
  by (cases ls) simp_all

lemma join_nl_snoc: "join_nl (ls @ [l]) = (if ls = [] then l else join_nl ls @ 10 # l)"
  by (induction ls) (auto simp: join_nl_Cons)

lemma rev_join_nl: "rev (join_nl ls) = join_nl (map rev (rev ls))"
  by (induction ls) (auto simp: join_nl_Cons join_nl_snoc)

lemma dropWhile_join_nl:
  "\<forall>l\<in>set ls. l = [] \<or> \<not> isspace (hd l) \<Longrightarrow>
   dropWhile isspace (join_nl ls) = join_nl (dropWhile (\<lambda>l. l = []) ls)"
proof (induction ls)
  case Nil
  then show ?case by simp
next
  case (Cons l ls)
  have sp: "isspace 10" by (simp add: isspace_def)
  show ?case
  proof (cases "l = []")
    case True
    with Cons sp show ?thesis by (simp add: join_nl_Cons)
  next
    case False
    with Cons.prems have "\<not> isspace (hd l)" by simp
    with False have "dropWhile isspace (l @ r) = l @ r" for r
      by (cases l) simp_all
    from this this[of "[]"] False show ?thesis by (simp add: join_nl_Cons)
  qed
qed

lemma strip_join_nl:
  assumes "\<forall>l\<in>set ls. trimmed isspace l"
  shows "strip (join_nl ls) = join_nl (trim_ends (\<lambda>l. l = []) ls)"
proof -
  let ?N = "\<lambda>l::ustr. l = []"
  have a: "dropWhile isspace (join_nl ls) = join_nl (dropWhile ?N ls)"
    using assms by (intro dropWhile_join_nl) (auto simp: trimmed_def)
  have "\<forall>l\<in>set (map rev (rev (dropWhile ?N ls))). l = [] \<or> \<not> isspace (hd l)"
    using assms by (auto simp: trimmed_def hd_rev dest!: set_dropWhileD)
  then have b: "dropWhile isspace (join_nl (map rev (rev (dropWhile ?N ls))))
      = join_nl (dropWhile ?N (map rev (rev (dropWhile ?N ls))))"
    by (rule dropWhile_join_nl)
  have c: "dropWhile ?N (map rev xs) = map rev (dropWhile ?N xs)" for xs :: "ustr list"
    by (induction xs) auto
  show ?thesis
    by (simp add: strip_trim trim_ends_def a rev_join_nl b c rev_map)
qed

subsection \<open>Splitting into lines\<close>

lemma split_nl_not_Nil: "split_nl s \<noteq> []"
  by (induction s) auto

lemma split_nl_join_nl:
  "ls \<noteq> [] \<Longrightarrow> \<forall>l\<in>set ls. 10 \<notin> set l \<Longrightarrow> split_nl (join_nl ls) = ls"
proof (induction ls)
  case Nil
  then show ?case by simp
next
  case (Cons l ls)
  have app: "10 \<notin> set l \<Longrightarrow> split_nl (l @ 10 # r) = l # split_nl r" for l r
    by (induction l) auto
  have single: "10 \<notin> set l \<Longrightarrow> split_nl l = [l]" for l
    by (induction l) auto
  from Cons show ?case by (auto simp: join_nl_Cons app single)
qed

lemma split_nl_chars: "l \<in> set (split_nl s) \<Longrightarrow> set l \<subseteq> set s - {10}"
proof (induction s arbitrary: l)
  case Nil
  then show ?case by simp
next
  case (Cons c s)
  have ne: "split_nl s \<noteq> []" by (rule split_nl_not_Nil)
  then have hd_in: "hd (split_nl s) \<in> set (split_nl s)" by simp
  have tl_in: "set (tl (split_nl s)) \<subseteq> set (split_nl s)" using ne by (cases "split_nl s") auto
  show ?case
  proof (cases "c = 10")
    case True
    with Cons show ?thesis by auto
  next
    case False
    with Cons.prems have "l = c # hd (split_nl s) \<or> l \<in> set (tl (split_nl s))" by simp
    then show ?thesis
    proof
      assume "l = c # hd (split_nl s)"
      with Cons.IH[OF hd_in] False show ?thesis by auto
    next
      assume "l \<in> set (tl (split_nl s))"
      with tl_in have "l \<in> set (split_nl s)" by blast
      from Cons.IH[OF this] show ?thesis by auto
    qed
  qed
qed

lemma set_join_nl: "set (join_nl ls) \<subseteq> insert 10 (\<Union>l\<in>set ls. set l)"
  by (induction ls) (auto simp: join_nl_Cons split: if_splits)

subsection \<open>The blank-line loop\<close>

lemma set_blank_loop: "set (blank_loop b ls) \<subseteq> set ls"
  by (induction ls arbitrary: b) auto

lemma blank_loop_shape:
  "successively not_both_blank (blank_loop p ls) \<and>
   (p \<longrightarrow> blank_loop p ls = [] \<or> hd (blank_loop p ls) \<noteq> [])"
  by (induction ls arbitrary: p) (auto simp: successively_Cons not_both_blank_def)

lemma blank_loop_id:
  "successively not_both_blank ls \<Longrightarrow> (p \<longrightarrow> ls = [] \<or> hd ls \<noteq> []) \<Longrightarrow>
   blank_loop p ls = ls"
  by (induction ls arbitrary: p) (auto simp: successively_Cons not_both_blank_def)

lemma clean_as_lines:
  "clean_extracted_text tab s =
     join_nl (trim_ends (\<lambda>l. l = []) (blank_loop False (map strip (split_nl (filter (keep_char tab) s)))))"
proof (cases "s = []")
  case True
  then show ?thesis by (simp add: clean_extracted_text_def trim_ends_def strip_trim)
next
  case False
  have "\<forall>l\<in>set (blank_loop False (map strip (split_nl (filter (keep_char tab) s)))). trimmed isspace l"
    using set_blank_loop[of False "map strip (split_nl (filter (keep_char tab) s))"]
    by (auto simp: strip_trim trimmed_trim_ends)
  then show ?thesis using False
    by (simp add: clean_extracted_text_def Let_def strip_join_nl)
qed

lemma clean_twice: "clean_extracted_text tab (clean_extracted_text tab s) = clean_extracted_text tab s"
proof -
  define L where "L = blank_loop False (map strip (split_nl (filter (keep_char tab) s)))"
  define L' where "L' = trim_ends (\<lambda>l. l = []) L"
  have out: "clean_extracted_text tab s = join_nl L'"
    by (simp add: clean_as_lines L_def L'_def)
  have L_sub: "set L \<subseteq> strip ` set (split_nl (filter (keep_char tab) s))"
    unfolding L_def using set_blank_loop[of False "map strip (split_nl (filter (keep_char tab) s))"] by simp
  have L'_sub: "set L' \<subseteq> set L" unfolding L'_def by (rule set_trim_ends)
  have chars: "set l \<subseteq> {c. keep_char tab c} - {10}" and str: "trimmed isspace l" if "l \<in> set L'" for l
  proof -
    from that L'_sub L_sub obtain l0 where l0: "l0 \<in> set (split_nl (filter (keep_char tab) s))" "l = strip l0"
      by blast
    from split_nl_chars[OF l0(1)] have "set l0 \<subseteq> {c. keep_char tab c} - {10}" by auto
    moreover have "set l \<subseteq> set l0" unfolding l0(2) strip_trim by (rule set_trim_ends)
    ultimately show "set l \<subseteq> {c. keep_char tab c} - {10}" by blast
    show "trimmed isspace l" unfolding l0(2) strip_trim by (rule trimmed_trim_ends)
  qed
  have brf: "successively not_both_blank L'"
    using blank_run_free_trim[of L "\<lambda>l. l = []"] blank_loop_shape[of False "map strip (split_nl (filter (keep_char tab) s))"]
    by (simp add: blank_run_free_def L_def L'_def)
  have tr: "trimmed (\<lambda>l. l = []) L'" unfolding L'_def by (rule trimmed_trim_ends)
  show ?thesis
  proof (cases "L' = []")
    case True
    have "clean_extracted_text tab [] = []" by (simp add: clean_extracted_text_def)
    then show ?thesis by (simp add: out True)
  next
    case False
    have k10: "keep_char tab 10" by (simp add: keep_char_def)
    have "set (join_nl L') \<subseteq> {c. keep_char tab c}"
      using set_join_nl[of L'] chars k10 by auto
    then have f: "filter (keep_char tab) (join_nl L') = join_nl L'"
      by (auto simp: filter_id_conv)
    have sp: "split_nl (join_nl L') = L'"
      using False chars by (intro split_nl_join_nl) auto
    have ms: "map strip L' = L'"
      using str by (simp add: map_idI strip_trim trim_ends_id)
    have bl: "blank_loop False L' = L'"
      using brf by (intro blank_loop_id) auto
    have "clean_extracted_text tab (join_nl L') = join_nl (trim_ends (\<lambda>l. l = []) L')"
      by (simp add: clean_as_lines f sp ms bl)
    also have "\<dots> = join_nl L'" using tr by (simp add: trim_ends_id)
    finally show ?thesis by (simp add: out)
  qed
qed


lemma blank_loop_zip:
  "p = (q = Some []) \<Longrightarrow>
   blank_loop p ls = map snd (filter (\<lambda>(prev, l). \<not> (prev = Some [] \<and> l = []))
                (zip (q # map Some ls) ls))"
proof (induction ls arbitrary: p q)
  case Nil
  then show ?case by simp
next
  case (Cons l ls)
  have a: "blank_loop False ls = map snd (filter (\<lambda>(prev, l). \<not> (prev = Some [] \<and> l = []))
                (zip (Some l # map Some ls) ls))" if "l \<noteq> []"
    using that by (intro Cons.IH) simp
  have b: "blank_loop True ls = map snd (filter (\<lambda>(prev, l). \<not> (prev = Some [] \<and> l = []))
                (zip (Some l # map Some ls) ls))" if "l = []"
    using that by (intro Cons.IH) simp
  show ?case using Cons.prems a b by simp
qed
lemma blank_loop_spec: "blank_loop False ls = collapse_blank_runs ls"
  unfolding collapse_blank_runs_def by (rule blank_loop_zip) simp
lemma clean_blank_run_free: "blank_run_free (split_nl (clean_extracted_text tab s))"
proof (cases "trim_ends (\<lambda>l. l = []) (blank_loop False (map strip (split_nl (filter (keep_char tab) s)))) = []")
  case True
  then show ?thesis by (simp add: clean_as_lines blank_run_free_def)
next
  case False
  let ?L = "blank_loop False (map strip (split_nl (filter (keep_char tab) s)))"
  let ?L' = "trim_ends (\<lambda>l. l = []) ?L"
  have "set ?L' \<subseteq> strip ` set (split_nl (filter (keep_char tab) s))"
    using set_trim_ends[of "\<lambda>l. l = []" ?L] set_blank_loop[of False "map strip (split_nl (filter (keep_char tab) s))"]
    by auto
  then have "\<forall>l\<in>set ?L'. 10 \<notin> set l"
    using split_nl_chars set_trim_ends[of isspace] by (fastforce simp: strip_trim)
  with False have "split_nl (join_nl ?L') = ?L'" by (intro split_nl_join_nl)
  moreover have "blank_run_free ?L'"
    using blank_loop_shape[of False] by (intro blank_run_free_trim) (simp add: blank_run_free_def)
  ultimately show ?thesis by (simp add: clean_as_lines)
qed

lemma clean_lines:
  assumes "clean_extracted_text tab s \<noteq> []"
  shows "split_nl (clean_extracted_text tab s)
         = trim_ends (\<lambda>l. l = [])
             (blank_loop False (map strip (split_nl (filter (keep_char tab) s))))"
proof -
  let ?L = "blank_loop False (map strip (split_nl (filter (keep_char tab) s)))"
  let ?L' = "trim_ends (\<lambda>l. l = []) ?L"
  from assms have ne: "?L' \<noteq> []" by (auto simp: clean_as_lines)
  have "set ?L' \<subseteq> strip ` set (split_nl (filter (keep_char tab) s))"
    using set_trim_ends[of "\<lambda>l. l = []" ?L]
      set_blank_loop[of False "map strip (split_nl (filter (keep_char tab) s))"]
    by auto
  then have "\<forall>l\<in>set ?L'. 10 \<notin> set l"
    using split_nl_chars set_trim_ends[of isspace] by (fastforce simp: strip_trim)
  with ne have "split_nl (join_nl ?L') = ?L'" by (intro split_nl_join_nl)
  then show ?thesis by (simp add: clean_as_lines)
qed

subsection \<open>Examples of normalization\<close>

lemma lit_hello4: "lit ''Hello\<newline>\<newline>\<newline>\<newline>World''
    = [72, 101, 108, 108, 111, 10, 10, 10, 10, 87, 111, 114, 108, 100]"
  by (simp add: lit_def)

lemma lit_hello2: "lit ''Hello\<newline>\<newline>World''
    = [72, 101, 108, 108, 111, 10, 10, 87, 111, 114, 108, 100]"
  by (simp add: lit_def)

lemma clean_hello:
  "clean_extracted_text tab [72, 101, 108, 108, 111, 10, 10, 10, 10, 87, 111, 114, 108, 100]
     = [72, 101, 108, 108, 111, 10, 10, 87, 111, 114, 108, 100]"
  by (simp add: clean_extracted_text_def keep_char_def isprintable_def strip_def
        lstrip_def rstrip_def isspace_def)

lemma clean_notes: "clean_extracted_text tab [65, 10, 10, 10, 66, 10] = [65, 10, 10, 66]"
  by (simp add: clean_extracted_text_def keep_char_def isprintable_def strip_def
        lstrip_def rstrip_def isspace_def)

lemma clean_padded:
  "clean_extracted_text tab [10, 10, 32, 65, 9, 10, 32, 10, 10, 7, 66, 32, 10] = [65, 10, 10, 66]"
  by (simp add: clean_extracted_text_def keep_char_def isprintable_def strip_def
        lstrip_def rstrip_def isspace_def)

lemma clean_trailing: "clean_extracted_text tab [65, 10, 10, 10] = [65]"
  by (simp add: clean_extracted_text_def keep_char_def isprintable_def strip_def
        lstrip_def rstrip_def isspace_def)

lemma clean_leading: "clean_extracted_text tab [10, 10, 10, 65] = [65]"
  by (simp add: clean_extracted_text_def keep_char_def isprintable_def strip_def
        lstrip_def rstrip_def isspace_def)

lemma lines_padded:
  "map strip (split_nl (filter (keep_char tab) [10, 10, 32, 65, 9, 10, 32, 10, 10, 7, 66, 32, 10]))
     = [[], [], [65], [], [], [66], []]"
  by (simp add: keep_char_def isprintable_def strip_def lstrip_def rstrip_def isspace_def)

section \<open>Properties of the extraction pipeline\<close>

lemma print_stderr_ok: "stderr_writable w \<Longrightarrow> print_stderr w err line = Inr (err @ [line])"
  by (simp add: print_stderr_def stderr_writable_def)

lemma pdf_loop_counts:
  "pdf_loop w ps n v err = (Inr v', err') \<Longrightarrow>
   pages_processed v' = pages_processed v + int (length ps)
   \<and> ocr_pages v' = ocr_pages v + int (length (filter ocr_gave_text ps))"
proof (induction ps arbitrary: n v err)
  case Nil
  then show ?case by simp
next
  case (Cons pg ps)
  show ?case
  proof (cases "get_text pg")
    case (Inl e)
    with Cons.prems show ?thesis by simp
  next
    case (Inr t)
    show ?thesis
    proof (cases "strip t = []")
      case False
      with Inr Cons.prems
      have "pdf_loop w ps (n + 1) (v\<lparr>full_text := full_text v @ t @ [10],
                 pages_processed := pages_processed v + 1\<rparr>) err = (Inr v', err')"
        by simp
      from Cons.IH[OF this] Inr False show ?thesis
        by (simp add: ocr_gave_text_def ocr_invoked_def)
    next
      case True
      show ?thesis
      proof (cases "image_to_string pg")
        case (Inl e)
        show ?thesis
        proof (cases "print_stderr w err
                 (lit ''OCR failed for page '' @ str_nat n @ lit '': '' @ str_exn e)")
          case failed: (Inl e')
          with True Inr Inl Cons.prems show ?thesis by simp
        next
          case printed: (Inr err2)
          with True Inr Inl Cons.prems
          have "pdf_loop w ps (n + 1) (v\<lparr>pages_processed := pages_processed v + 1\<rparr>) err2
                = (Inr v', err')"
            by simp
          from Cons.IH[OF this] Inr True Inl show ?thesis
            by (simp add: ocr_gave_text_def ocr_invoked_def)
        qed
      next
        case ocr: (Inr ocr_text)
        show ?thesis
        proof (cases "strip ocr_text = []")
          case blank: True
          with True Inr ocr Cons.prems
          have "pdf_loop w ps (n + 1) (v\<lparr>pages_processed := pages_processed v + 1\<rparr>) err
                = (Inr v', err')"
            by simp
          from Cons.IH[OF this] Inr True ocr blank show ?thesis
            by (simp add: ocr_gave_text_def ocr_invoked_def)
        next
          case False
          with True Inr ocr Cons.prems
          have "pdf_loop w ps (n + 1) (v\<lparr>full_text := full_text v @ ocr_text @ [10],
                        ocr_pages := ocr_pages v + 1,
                        pages_processed := pages_processed v + 1\<rparr>) err
                = (Inr v', err')"
            by simp
          from Cons.IH[OF this] Inr True ocr False show ?thesis
            by (simp add: ocr_gave_text_def ocr_invoked_def)
        qed
      qed
    qed
  qed
qed

lemma pdf_loop_total_quiet:
  "list_all get_text_ok ps \<Longrightarrow> list_all (\<lambda>pg. \<not> ocr_raised pg) ps \<Longrightarrow>
   \<exists>v' err'. pdf_loop w ps n v err = (Inr v', err')"
  by (induction ps arbitrary: n v err)
     (auto simp: get_text_ok_def ocr_raised_def ocr_invoked_def split: sum.splits)

lemma pdf_loop_total_writable:
  "list_all get_text_ok ps \<Longrightarrow> stderr_writable w \<Longrightarrow>
   \<exists>v' err'. pdf_loop w ps n v err = (Inr v', err')"
  by (induction ps arbitrary: n v err)
     (auto simp: get_text_ok_def print_stderr_ok split: sum.splits)

lemma has_key_simps:
  "has_key [] k = False"
  "has_key ((a, b) # d) k = (k = a \<or> has_key d k)"
  by (auto simp: has_key_def)

lemma pdf_try_shape:
  "extract_text_from_pdf_try w p = (Inr d, err) \<Longrightarrow>
   \<exists>doc v. fitz_open w p = Inr doc \<and> doc_close doc = None
     \<and> pdf_loop w (pages doc) 0 \<lparr>full_text = [], pages_processed = 0, ocr_pages = 0\<rparr> [] = (Inr v, err)
     \<and> d = [(''text'', PyStr (clean_extracted_text (printable_tab w) (full_text v))),
            (''pages_processed'', PyInt (pages_processed v)),
            (''ocr_pages'', PyInt (ocr_pages v)),
            (''length'', PyInt (int (length (clean_extracted_text (printable_tab w) (full_text v))))),
            (''method'', PyStr (lit ''PyMuPDF + OCR''))]"
  by (auto simp: extract_text_from_pdf_try_def Let_def split: sum.splits prod.splits option.splits)

lemma pdf_returns:
  "\<exists>d err. extract_text_from_pdf w p = (Inr d, err)
     \<and> (error_record d \<or> extract_text_from_pdf_try w p = (Inr d, err))"
  by (cases "extract_text_from_pdf_try w p")
     (auto simp: extract_text_from_pdf_def error_record_def split: sum.splits)

lemma doc_try_shape:
  "extract_text_from_doc_try w p = (Inr d, err) \<Longrightarrow>
   error_record d
   \<or> (\<exists>raw. d = [(''text'', PyStr (clean_extracted_text (printable_tab w) raw)),
                  (''length'', PyInt (int (length (clean_extracted_text (printable_tab w) raw)))),
                  (''method'', PyStr (lit ''textract''))])
   \<or> (\<exists>raw n. d = [(''text'', PyStr (clean_extracted_text (printable_tab w) raw)),
                  (''paragraphs'', PyInt n),
                  (''length'', PyInt (int (length (clean_extracted_text (printable_tab w) raw)))),
                  (''method'', PyStr (lit ''python-docx''))])"
  by (auto simp: extract_text_from_doc_try_def textract_fallback_def Let_def error_record_def
           split: sum.splits if_splits)

lemma doc_returns:
  "\<exists>d err. extract_text_from_doc w p = (Inr d, err)
     \<and> (error_record d \<or> extract_text_from_doc_try w p = (Inr d, err))"
  by (cases "extract_text_from_doc_try w p")
     (auto simp: extract_text_from_doc_def error_record_def split: sum.splits)

lemma pdf_result:
  "\<exists>d err. extract_text_from_pdf w p = (Inr d, err)
     \<and> (error_record d \<or> (success_record d \<and> normalized_success (printable_tab w) d))"
  using pdf_returns[of w p] pdf_try_shape[of w p]
  by (fastforce simp: success_record_def normalized_success_def has_key_simps clean_twice)

lemma doc_result:
  "\<exists>d err. extract_text_from_doc w p = (Inr d, err)
     \<and> (error_record d \<or> (success_record d \<and> normalized_success (printable_tab w) d))"
  using doc_returns[of w p] doc_try_shape[of w p]
  by (fastforce simp: success_record_def normalized_success_def has_key_simps clean_twice)

lemma try_result:
  "extract_text_try w p = (Inr d, err) \<Longrightarrow>
     error_record d \<or> (success_record d \<and> normalized_success (printable_tab w) d)"
  using pdf_result[of w p] doc_result[of w p]
  by (auto simp: extract_text_try_def Let_def error_record_def success_record_def
        normalized_success_def has_key_simps clean_twice split: if_splits sum.splits)

lemma extract_text_result:
  "\<exists>d err. extract_text w p = (Inr d, err)
     \<and> (error_record d \<or> (success_record d \<and> normalized_success (printable_tab w) d))"
  using try_result[of w p]
  by (cases "extract_text_try w p")
     (auto simp: extract_text_def error_record_def split: sum.splits)

lemma error_record_iff: "error_record d \<longleftrightarrow> (\<exists>m. d = [(''error'', PyStr m)])"
  by (auto simp: error_record_def split: list.splits prod.splits pyval.splits)

lemma error_not_success: "error_record d \<Longrightarrow> \<not> success_record d"
  by (auto simp: error_record_iff success_record_def has_key_simps)

section \<open>The claims about the normalizer\<close>

text \<open>
  C2. The text normalizer is idempotent: for every string \<open>s\<close>, normalizing the
  normalized string gives the normalized string again, where the normalizer is
  \<open>clean_extracted_text\<close>. This holds whatever the Unicode database says about the
  printability of the characters beyond ASCII.
\<close>

theorem clean_extracted_text_idempotent:
  "clean_extracted_text tab (clean_extracted_text tab s) = clean_extracted_text tab s"
  by (rule clean_twice)

theorem clean_extracted_text_idempotent_witness:
  "clean_extracted_text (\<lambda>c. False)
     (clean_extracted_text (\<lambda>c. False) [10, 10, 32, 65, 9, 10, 32, 10, 10, 7, 66, 32, 10])
   = [65, 10, 10, 66]"
  using clean_extracted_text_idempotent
    [of "\<lambda>c. False" "[10, 10, 32, 65, 9, 10, 32, 10, 10, 7, 66, 32, 10]"]
  by (simp add: clean_padded)

text \<open>
  C3, as the program has it. The normalizer collapses every run of two or more
  consecutive empty lines between two lines with content to exactly one empty line,
  and removes the runs of empty lines at the start and at the end of the text
  altogether; so no run of blank lines longer than one survives in its output, and
  \<open>Hello\n\n\n\nWorld\<close> is normalized to \<open>Hello\n\nWorld\<close>. In the statement, the
  lines of the input are those of the text without the dropped characters, each one
  trimmed. The output is these lines with the first line of every run of empty lines
  kept and the others deleted (\<open>collapse_blank_runs\<close>), then without the empty lines
  at both ends, joined by newlines; when the output is not empty, these are exactly its
  lines.
\<close>

theorem blank_lines_collapsed:
  "clean_extracted_text tab s
     = join_nl (trim_ends (\<lambda>l. l = [])
         (collapse_blank_runs (map strip (split_nl (filter (keep_char tab) s)))))
   \<and> (clean_extracted_text tab s \<noteq> [] \<longrightarrow>
        split_nl (clean_extracted_text tab s)
          = trim_ends (\<lambda>l. l = [])
              (collapse_blank_runs (map strip (split_nl (filter (keep_char tab) s)))))
   \<and> blank_run_free (split_nl (clean_extracted_text tab s))
   \<and> clean_extracted_text tab (lit ''Hello\<newline>\<newline>\<newline>\<newline>World'')
       = lit ''Hello\<newline>\<newline>World''"
  using clean_as_lines[of tab s] clean_lines[of tab s] clean_blank_run_free[of tab s]
  by (simp add: blank_loop_spec lit_hello4 lit_hello2 clean_hello)

theorem blank_lines_collapsed_witness:
  "map strip (split_nl (filter (keep_char (printable_tab demo_world))
       [10, 10, 32, 65, 9, 10, 32, 10, 10, 7, 66, 32, 10]))
     = [[], [], [65], [], [], [66], []]
   \<and> collapse_blank_runs [[], [], [65], [], [], [66], []] = [[], [65], [], [66], []]
   \<and> clean_extracted_text (printable_tab demo_world)
        [10, 10, 32, 65, 9, 10, 32, 10, 10, 7, 66, 32, 10] = [65, 10, 10, 66]
   \<and> split_nl (clean_extracted_text (printable_tab demo_world)
        [10, 10, 32, 65, 9, 10, 32, 10, 10, 7, 66, 32, 10]) = [[65], [], [66]]"
proof -
  have p: "map strip (split_nl (filter (keep_char (printable_tab demo_world))
       [10, 10, 32, 65, 9, 10, 32, 10, 10, 7, 66, 32, 10]))
     = [[], [], [65], [], [], [66], []]"
    by (rule lines_padded)
  have a: "collapse_blank_runs [[], [], [65], [], [], [66], []] = [[], [65], [], [66], []]"
    by (simp add: collapse_blank_runs_def)
  have c: "clean_extracted_text (printable_tab demo_world)
        [10, 10, 32, 65, 9, 10, 32, 10, 10, 7, 66, 32, 10] = [65, 10, 10, 66]"
    by (rule clean_padded)
  note t = blank_lines_collapsed [of "printable_tab demo_world"
      "[10, 10, 32, 65, 9, 10, 32, 10, 10, 7, 66, 32, 10]", unfolded p a c]
  show ?thesis
  proof (intro conjI)
    show "split_nl (clean_extracted_text (printable_tab demo_world)
        [10, 10, 32, 65, 9, 10, 32, 10, 10, 7, 66, 32, 10]) = [[65], [], [66]]"
      using t unfolding c by (simp add: trim_ends_def)
  qed (rule p a c)+
qed

text \<open>
  The claim C3 as stated fails at the ends of the text: the run of three empty lines
  after \<open>A\<close> in \<open>A\n\n\n\<close>, and the one before \<open>A\<close> in \<open>\n\n\nA\<close>, are not collapsed
  to one empty line but removed, by the last \<open>strip()\<close> of the normalizer.
\<close>

theorem blank_lines_collapsed_counterexample:
  "split_nl [65, 10, 10, 10] = [[65], [], [], []]
   \<and> clean_extracted_text (printable_tab demo_world) [65, 10, 10, 10] = [65]
   \<and> split_nl [10, 10, 10, 65] = [[], [], [], [65]]
   \<and> clean_extracted_text (printable_tab demo_world) [10, 10, 10, 65] = [65]
   \<and> split_nl [65] = [[65]]"
  by (simp add: clean_trailing clean_leading)

section \<open>The example world, evaluated\<close>

lemma lit_inj: "(lit a = lit b) = (a = b)"
  by (simp add: lit_def inj_map_eq_map inj_on_def)

lemma ext_notes: "lower tab (snd (splitext (lit ''notes.txt''))) = lit ''.txt''"
  by (simp add: lit_def splitext_def rfind_def skip_dots.simps lower_def ascii_lower_def)

lemma ext_missing: "lower tab (snd (splitext (lit ''missing.txt''))) = lit ''.txt''"
  by (simp add: lit_def splitext_def rfind_def skip_dots.simps lower_def ascii_lower_def)

lemma ext_xyz: "lower tab (snd (splitext (lit ''/srv/in/Scan.XYZ''))) = lit ''.xyz''"
  by (simp add: lit_def splitext_def rfind_def skip_dots.simps lower_def ascii_lower_def)

lemma notes_result:
  "extract_text demo_world (lit ''notes.txt'')
     = (Inr [(''text'', PyStr [65, 10, 10, 66]), (''length'', PyInt 4),
             (''method'', PyStr (lit ''direct text read''))], [])"
  by (simp add: extract_text_def extract_text_try_def ext_notes lit_inj demo_world_def clean_notes)

lemma missing_result:
  "extract_text demo_world (lit ''missing.txt'')
     = (Inr [(''error'', PyStr (lit ''Failed to extract text: '' @ lit ''No such file or directory''))], [])"
  by (simp add: extract_text_def extract_text_try_def ext_missing lit_inj demo_world_def enoent_def)

section \<open>The claims about the dispatcher\<close>

text \<open>
  C1. For every input file path, the result of \<open>extract_text\<close> is a tagged union: it
  contains the success fields (\<open>text\<close> and \<open>method\<close>) or a single \<open>error\<close> field,
  exactly one of the two, never both and never neither.
\<close>

theorem extract_text_tagged_union:
  "\<exists>d err. extract_text w file_path = (Inr d, err)
     \<and> ((success_record d \<and> \<not> error_record d) \<or> (error_record d \<and> \<not> success_record d))
     \<and> (error_record d \<longleftrightarrow> has_key d ''error'')"
  using extract_text_result[of w file_path] error_not_success
  by (auto simp: success_record_def error_record_iff has_key_simps)

theorem extract_text_tagged_union_witness:
  "success_record (projr (fst (extract_text demo_world (lit ''notes.txt''))))
   \<and> \<not> error_record (projr (fst (extract_text demo_world (lit ''notes.txt''))))
   \<and> error_record (projr (fst (extract_text demo_world (lit ''missing.txt''))))
   \<and> \<not> success_record (projr (fst (extract_text demo_world (lit ''missing.txt''))))"
  using extract_text_tagged_union [of demo_world "lit ''notes.txt''"]
    extract_text_tagged_union [of demo_world "lit ''missing.txt''"]
  by (simp add: notes_result missing_result success_record_def error_record_def has_key_simps)

text \<open>
  C4. For every successful extraction result (PDF, DOC/DOCX or plain text) the
  \<open>length\<close> field equals the character count of the normalized \<open>text\<close> field that is
  returned, never that of the raw extracted text: the \<open>text\<close> of the record is a
  normalized string and \<open>length\<close> is its number of characters. This holds for
  \<open>extract_text\<close> and for the two extractors called on their own.
\<close>

theorem length_counts_normalized_text:
  assumes "extract_text w file_path = (Inr d, err)
           \<or> extract_text_from_pdf w file_path = (Inr d, err)
           \<or> extract_text_from_doc w file_path = (Inr d, err)"
    and "success_record d"
  shows "normalized_success (printable_tab w) d"
  using assms extract_text_result[of w file_path] pdf_result[of w file_path]
    doc_result[of w file_path] error_not_success[of d]
  by auto

theorem length_counts_normalized_text_witness:
  "open_read demo_world (lit ''notes.txt'') = Inr [65, 10, 10, 10, 66, 10]
   \<and> map_of (projr (fst (extract_text demo_world (lit ''notes.txt'')))) ''text''
       = Some (PyStr [65, 10, 10, 66])
   \<and> map_of (projr (fst (extract_text demo_world (lit ''notes.txt'')))) ''length''
       = Some (PyInt 4)
   \<and> normalized_success (printable_tab demo_world)
        (projr (fst (extract_text demo_world (lit ''notes.txt''))))"
proof -
  have a: "open_read demo_world (lit ''notes.txt'') = Inr [65, 10, 10, 10, 66, 10]"
    by (simp add: demo_world_def)
  from length_counts_normalized_text [of demo_world "lit ''notes.txt''"
      "[(''text'', PyStr [65, 10, 10, 66]), (''length'', PyInt 4),
        (''method'', PyStr (lit ''direct text read''))]" "[]"] a
  show ?thesis by (simp add: notes_result success_record_def has_key_simps)
qed

text \<open>
  C10. \<open>extract_text\<close> is total at the public interface: for every path, whatever the
  libraries and the file system answer (a file that does not exist, cannot be read, is
  corrupt or wrongly encoded), it returns a record and raises nothing, since every
  exception raised inside is caught and turned into an error record. The same holds
  for the two extractors.
\<close>

theorem extract_text_never_raises:
  "(\<exists>d err. extract_text w file_path = (Inr d, err)
       \<and> (\<forall>e err'. extract_text_try w file_path = (Inl e, err') \<longrightarrow> error_record d))
   \<and> (\<exists>d err. extract_text_from_pdf w file_path = (Inr d, err)
       \<and> (\<forall>e err'. extract_text_from_pdf_try w file_path = (Inl e, err') \<longrightarrow> error_record d))
   \<and> (\<exists>d err. extract_text_from_doc w file_path = (Inr d, err)
       \<and> (\<forall>e err'. extract_text_from_doc_try w file_path = (Inl e, err') \<longrightarrow> error_record d))"
  by (cases "extract_text_try w file_path"; cases "extract_text_from_pdf_try w file_path";
      cases "extract_text_from_doc_try w file_path")
     (auto simp: extract_text_def extract_text_from_pdf_def extract_text_from_doc_def
        error_record_def split: sum.splits)

theorem extract_text_never_raises_witness:
  "extract_text_try demo_world (lit ''missing.txt'') = (Inl enoent, [])
   \<and> extract_text demo_world (lit ''missing.txt'')
       = (Inr [(''error'', PyStr (lit ''Failed to extract text: '' @ str_exn enoent))], [])"
proof -
  have a: "extract_text_try demo_world (lit ''missing.txt'') = (Inl enoent, [])"
    by (simp add: extract_text_try_def ext_missing lit_inj demo_world_def)
  have b: "extract_text demo_world (lit ''missing.txt'')
       = (Inr [(''error'', PyStr (lit ''Failed to extract text: '' @ str_exn enoent))], [])"
    by (simp add: missing_result enoent_def)
  from extract_text_never_raises [of demo_world "lit ''missing.txt''"] a b
  show ?thesis by simp
qed

text \<open>
  C9. For every file path whose extension, lower-cased, is not \<open>.pdf\<close>, \<open>.doc\<close>,
  \<open>.docx\<close> or \<open>.txt\<close>, extraction yields an error record whose message names the
  rejected extension, regardless of the contents of the file and without inspecting
  them: the record is the same whatever the libraries and the file system would answer,
  and nothing is printed.
\<close>

theorem unsupported_extension_rejected:
  assumes "ext = lower (lower_tab w) (snd (splitext file_path))"
    and "ext \<noteq> lit ''.pdf''" "ext \<noteq> lit ''.doc''" "ext \<noteq> lit ''.docx''" "ext \<noteq> lit ''.txt''"
  shows "extract_text w file_path
           = (Inr [(''error'', PyStr (lit ''Unsupported file type: '' @ ext
                      @ lit ''. Only PDF, DOC, DOCX, TXT supported.''))], [])
         \<and> extract_text (w\<lparr>fitz_open := f, docx_Document := g, textract_process := h,
                              open_read := r\<rparr>) file_path
           = extract_text w file_path"
  using assms by (simp add: extract_text_def extract_text_try_def)

theorem unsupported_extension_rejected_witness:
  "extract_text demo_world (lit ''/srv/in/Scan.XYZ'')
     = (Inr [(''error'', PyStr (lit ''Unsupported file type: '' @ lit ''.xyz''
                @ lit ''. Only PDF, DOC, DOCX, TXT supported.''))], [])"
  using unsupported_extension_rejected [of "lit ''.xyz''" demo_world "lit ''/srv/in/Scan.XYZ''"]
  by (simp add: ext_xyz lit_inj)


section \<open>Properties of PDF extraction\<close>

lemma native_not_ocr: "native_page pg \<Longrightarrow> \<not> ocr_gave_text pg"
  by (auto simp: native_page_def ocr_gave_text_def ocr_invoked_def split: sum.splits)

lemma filter_ocr_native: "list_all native_page ps \<Longrightarrow> filter ocr_gave_text ps = []"
  by (induction ps) (simp_all add: native_not_ocr)

lemma pdf_success_shape:
  assumes "extract_text_from_pdf w p = (Inr d, err)" and "success_record d"
  shows "\<exists>doc t. fitz_open w p = Inr doc
     \<and> d = [(''text'', PyStr t),
            (''pages_processed'', PyInt (int (length (pages doc)))),
            (''ocr_pages'', PyInt (int (length (filter ocr_gave_text (pages doc))))),
            (''length'', PyInt (int (length t))),
            (''method'', PyStr (lit ''PyMuPDF + OCR''))]"
proof -
  from pdf_returns[of w p] assms error_not_success[of d]
  have "extract_text_from_pdf_try w p = (Inr d, err)" by auto
  from pdf_try_shape[OF this] obtain doc v where
    o: "fitz_open w p = Inr doc"
    and l: "pdf_loop w (pages doc) 0 \<lparr>full_text = [], pages_processed = 0, ocr_pages = 0\<rparr> [] = (Inr v, err)"
    and d: "d = [(''text'', PyStr (clean_extracted_text (printable_tab w) (full_text v))),
            (''pages_processed'', PyInt (pages_processed v)),
            (''ocr_pages'', PyInt (ocr_pages v)),
            (''length'', PyInt (int (length (clean_extracted_text (printable_tab w) (full_text v))))),
            (''method'', PyStr (lit ''PyMuPDF + OCR''))]"
    by blast
  from pdf_loop_counts[OF l] o d show ?thesis by simp
qed

lemma pdf_succeeds:
  assumes "fitz_open w p = Inr doc" and "list_all get_text_ok (pages doc)"
    and "doc_close doc = None"
    and "list_all (\<lambda>pg. \<not> ocr_raised pg) (pages doc) \<or> stderr_writable w"
  shows "\<exists>d err. extract_text_from_pdf w p = (Inr d, err) \<and> success_record d"
proof -
  from assms(2,4) pdf_loop_total_quiet pdf_loop_total_writable obtain v err where
    "pdf_loop w (pages doc) 0 \<lparr>full_text = [], pages_processed = 0, ocr_pages = 0\<rparr> [] = (Inr v, err)"
    by blast
  with assms(1,3) show ?thesis
    by (simp add: extract_text_from_pdf_def extract_text_from_pdf_try_def Let_def
          success_record_def has_key_simps)
qed

lemma ocr_nothing_step:
  assumes "ocr_gave_nothing pg"
  shows "pdf_loop w (pg # rest) n v err
         = pdf_loop w rest (n + 1) (v\<lparr>pages_processed := pages_processed v + 1\<rparr>) err"
  using assms
  by (auto simp: ocr_gave_nothing_def ocr_invoked_def split: sum.splits)

lemma ocr_raised_step:
  assumes "ocr_raised pg" and "\<forall>line\<in>set (ocr_diagnostic n pg). stderr_write w err line = None"
  shows "pdf_loop w (pg # rest) n v err
         = pdf_loop w rest (n + 1) (v\<lparr>pages_processed := pages_processed v + 1\<rparr>)
             (err @ ocr_diagnostic n pg)"
  using assms
  by (auto simp: ocr_raised_def ocr_invoked_def ocr_diagnostic_def print_stderr_def
        split: sum.splits)

subsection \<open>The example documents, evaluated\<close>

lemma strip_examples:
  "strip [] = []"
  "strip (lit '' '') = []"
  "strip (lit ''  '') = []"
  "strip (lit ''Hello'') = lit ''Hello''"
  "strip (lit ''Scanned'') = lit ''Scanned''"
  "strip (lit ''Page two'') = lit ''Page two''"
  "strip (lit ''One'') = lit ''One''"
  "strip (lit ''Two'') = lit ''Two''"
  "strip (lit ''Three'') = lit ''Three''"
  by (simp_all add: strip_def lstrip_def rstrip_def isspace_def lit_def)

lemma lit_not_Nil: "(lit s = []) = (s = [])"
  by (simp add: lit_def)

lemma clean_examples:
  "clean_extracted_text tab (lit ''Hello'' @ [10]) = lit ''Hello''"
  "clean_extracted_text tab (lit ''Scanned'' @ [10]) = lit ''Scanned''"
  "clean_extracted_text tab (lit ''Page two'' @ [10]) = lit ''Page two''"
  "clean_extracted_text tab [] = []"
  by (simp_all add: clean_extracted_text_def keep_char_def isprintable_def strip_def
        lstrip_def rstrip_def isspace_def lit_def)

lemma native_pdf_result:
  "extract_text_from_pdf demo_world (lit ''native.pdf'')
     = (Inr [(''text'', PyStr (lit ''Hello'')), (''pages_processed'', PyInt 1),
             (''ocr_pages'', PyInt 0), (''length'', PyInt 5),
             (''method'', PyStr (lit ''PyMuPDF + OCR''))], [])"
  by (simp add: extract_text_from_pdf_def extract_text_from_pdf_try_def demo_world_def
        demo_pdf_def one_page_def lit_inj strip_examples lit_not_Nil clean_examples)
     (simp add: lit_def)

lemma scan_pdf_result:
  "extract_text_from_pdf demo_world (lit ''scan.pdf'')
     = (Inr [(''text'', PyStr (lit ''Scanned'')), (''pages_processed'', PyInt 1),
             (''ocr_pages'', PyInt 1), (''length'', PyInt 7),
             (''method'', PyStr (lit ''PyMuPDF + OCR''))], [])"
  by (simp add: extract_text_from_pdf_def extract_text_from_pdf_try_def demo_world_def
        demo_pdf_def one_page_def lit_inj strip_examples lit_not_Nil clean_examples)
     (simp add: lit_def)

lemma space_pdf_result:
  "extract_text_from_pdf demo_world (lit ''space.pdf'')
     = (Inr [(''text'', PyStr []), (''pages_processed'', PyInt 1),
             (''ocr_pages'', PyInt 0), (''length'', PyInt 0),
             (''method'', PyStr (lit ''PyMuPDF + OCR''))], [])"
  by (simp add: extract_text_from_pdf_def extract_text_from_pdf_try_def demo_world_def
        demo_pdf_def one_page_def lit_inj strip_examples lit_not_Nil clean_examples)

lemma empty_pdf_result:
  "extract_text_from_pdf demo_world (lit ''empty.pdf'')
     = (Inr [(''text'', PyStr []), (''pages_processed'', PyInt 1),
             (''ocr_pages'', PyInt 0), (''length'', PyInt 0),
             (''method'', PyStr (lit ''PyMuPDF + OCR''))], [])"
  by (simp add: extract_text_from_pdf_def extract_text_from_pdf_try_def demo_world_def
        demo_pdf_def one_page_def lit_inj strip_examples lit_not_Nil clean_examples)

lemma torn_pdf_result:
  "extract_text_from_pdf demo_world (lit ''torn.pdf'')
     = (Inr [(''text'', PyStr (lit ''Page two'')), (''pages_processed'', PyInt 2),
             (''ocr_pages'', PyInt 0), (''length'', PyInt 8),
             (''method'', PyStr (lit ''PyMuPDF + OCR''))],
        [lit ''OCR failed for page 0: tesseract is not installed''])"
  by (simp add: extract_text_from_pdf_def extract_text_from_pdf_try_def demo_world_def
        demo_pdf_def one_page_def lit_inj strip_examples lit_not_Nil clean_examples
        str_nat.simps print_stderr_def)
     (simp add: lit_def)

lemma torn_pdf_full_result:
  "extract_text_from_pdf full_world (lit ''torn.pdf'')
     = (Inr [(''error'', PyStr (lit ''PDF extraction failed: ''
                @ lit ''[Errno 28] No space left on device''))], [])"
  by (simp add: extract_text_from_pdf_def extract_text_from_pdf_try_def full_world_def
        demo_world_def demo_pdf_def one_page_def lit_inj strip_examples lit_not_Nil
        print_stderr_def)

section \<open>The claims about PDF extraction\<close>

text \<open>
  C5, as the program has it. Every successful PDF extraction carries the one label
  \<open>PyMuPDF + OCR\<close>, whether or not OCR contributed; the label does not tell a document
  whose pages all yield native text from one that needed OCR. What reflects the use of
  OCR is the counter: when every page yields native text, \<open>ocr_pages\<close> is \<open>0\<close>.
\<close>

theorem pdf_method_label_constant:
  assumes "extract_text_from_pdf w file_path = (Inr d, err)" and "success_record d"
  shows "map_of d ''method'' = Some (PyStr (lit ''PyMuPDF + OCR''))
         \<and> (\<forall>doc. fitz_open w file_path = Inr doc \<and> list_all native_page (pages doc)
               \<longrightarrow> map_of d ''ocr_pages'' = Some (PyInt 0))"
  using pdf_success_shape[OF assms] by (auto simp: filter_ocr_native)

theorem pdf_method_label_constant_witness:
  "map_of (projr (fst (extract_text_from_pdf demo_world (lit ''native.pdf'')))) ''method''
     = Some (PyStr (lit ''PyMuPDF + OCR''))
   \<and> list_all native_page (pages (one_page (Inr (lit ''Hello'')) (Inr [])))
   \<and> map_of (projr (fst (extract_text_from_pdf demo_world (lit ''native.pdf'')))) ''ocr_pages''
     = Some (PyInt 0)"
proof -
  have a: "fitz_open demo_world (lit ''native.pdf'') = Inr (one_page (Inr (lit ''Hello'')) (Inr []))"
    by (simp add: demo_world_def demo_pdf_def)
  have b: "list_all native_page (pages (one_page (Inr (lit ''Hello'')) (Inr [])))"
    by (simp add: one_page_def native_page_def strip_examples lit_not_Nil)
  from pdf_method_label_constant [OF native_pdf_result] a b
  show ?thesis by (simp add: native_pdf_result success_record_def has_key_simps)
qed

text \<open>
  The claim C5 as stated fails: \<open>native.pdf\<close>, whose only page yields native text, and
  \<open>scan.pdf\<close>, whose only page is read by OCR, get the same \<open>method\<close>, and the label of
  the document that never ran OCR names OCR.
\<close>

theorem pdf_method_label_counterexample:
  "list_all native_page (pages (one_page (Inr (lit ''Hello'')) (Inr [])))
   \<and> fitz_open demo_world (lit ''native.pdf'') = Inr (one_page (Inr (lit ''Hello'')) (Inr []))
   \<and> extract_text_from_pdf demo_world (lit ''native.pdf'')
       = (Inr [(''text'', PyStr (lit ''Hello'')), (''pages_processed'', PyInt 1),
               (''ocr_pages'', PyInt 0), (''length'', PyInt 5),
               (''method'', PyStr (lit ''PyMuPDF + OCR''))], [])
   \<and> list_all ocr_gave_text (pages (one_page (Inr []) (Inr (lit ''Scanned''))))
   \<and> fitz_open demo_world (lit ''scan.pdf'') = Inr (one_page (Inr []) (Inr (lit ''Scanned'')))
   \<and> extract_text_from_pdf demo_world (lit ''scan.pdf'')
       = (Inr [(''text'', PyStr (lit ''Scanned'')), (''pages_processed'', PyInt 1),
               (''ocr_pages'', PyInt 1), (''length'', PyInt 7),
               (''method'', PyStr (lit ''PyMuPDF + OCR''))], [])"
  by (simp add: native_pdf_result scan_pdf_result)
     (simp add: demo_world_def demo_pdf_def lit_inj one_page_def native_page_def
        ocr_gave_text_def ocr_invoked_def strip_examples lit_not_Nil)

text \<open>
  C6, as the program has it. For every successful PDF extraction the counters are
  non-negative and \<open>ocr_pages \<le> pages_processed\<close>; \<open>pages_processed\<close> is the number
  of pages of the document, and \<open>ocr_pages\<close> is the number of pages on which OCR was
  invoked and returned text that holds something other than whitespace.
\<close>

theorem pdf_counters:
  assumes "extract_text_from_pdf w file_path = (Inr d, err)" and "success_record d"
  shows "\<exists>doc processed ocr.
           fitz_open w file_path = Inr doc
           \<and> map_of d ''pages_processed'' = Some (PyInt processed)
           \<and> map_of d ''ocr_pages'' = Some (PyInt ocr)
           \<and> 0 \<le> ocr \<and> ocr \<le> processed
           \<and> processed = int (length (pages doc))
           \<and> ocr = int (length (filter ocr_gave_text (pages doc)))"
  using pdf_success_shape[OF assms] by auto

theorem pdf_counters_witness:
  "map_of (projr (fst (extract_text_from_pdf demo_world (lit ''torn.pdf'')))) ''pages_processed''
     = Some (PyInt 2)
   \<and> map_of (projr (fst (extract_text_from_pdf demo_world (lit ''torn.pdf'')))) ''ocr_pages''
     = Some (PyInt 0)"
  using pdf_counters [OF torn_pdf_result]
  by (simp add: torn_pdf_result success_record_def has_key_simps)

text \<open>
  The claim C6 as stated fails: on the page of \<open>space.pdf\<close> OCR was invoked and
  returned the non-empty string of one space, and \<open>ocr_pages\<close> is \<open>0\<close>, not \<open>1\<close>.
\<close>

theorem pdf_counters_counterexample:
  "fitz_open demo_world (lit ''space.pdf'') = Inr (one_page (Inr []) (Inr (lit '' '')))
   \<and> length (filter ocr_gave_nonempty (pages (one_page (Inr []) (Inr (lit '' ''))))) = 1
   \<and> extract_text_from_pdf demo_world (lit ''space.pdf'')
       = (Inr [(''text'', PyStr []), (''pages_processed'', PyInt 1),
               (''ocr_pages'', PyInt 0), (''length'', PyInt 0),
               (''method'', PyStr (lit ''PyMuPDF + OCR''))], [])"
  by (simp add: space_pdf_result)
     (simp add: demo_world_def demo_pdf_def lit_inj one_page_def ocr_gave_nonempty_def
        ocr_invoked_def strip_examples lit_not_Nil)

text \<open>
  C7, as the program has it. A page on which OCR is invoked and returns nothing but
  whitespace adds no text, is counted in \<open>pages_processed\<close>, and the loop goes on with
  the next page; nothing is recorded about it, neither in the result nor on
  \<open>sys.stderr\<close> (first conjunct). A page on which the OCR step raises does the same and
  leaves one line on \<open>sys.stderr\<close>, provided that line can be written (second
  conjunct). For the whole document (third conjunct): when it opens, every \<open>get_text\<close>
  succeeds and it closes, and either no OCR step raises or \<open>sys.stderr\<close> can be written,
  the result is a success record that counts every page, whatever the OCR steps did. What
  happens when the diagnostic cannot be written is not part of this statement.
\<close>

theorem ocr_failure_is_local:
  "(ocr_gave_nothing pg \<longrightarrow>
      pdf_loop w (pg # rest) page_num v err
        = pdf_loop w rest (page_num + 1) (v\<lparr>pages_processed := pages_processed v + 1\<rparr>) err)
   \<and> (ocr_raised pg
        \<and> (\<forall>line\<in>set (ocr_diagnostic page_num pg). stderr_write w err line = None) \<longrightarrow>
      pdf_loop w (pg # rest) page_num v err
        = pdf_loop w rest (page_num + 1) (v\<lparr>pages_processed := pages_processed v + 1\<rparr>)
            (err @ ocr_diagnostic page_num pg))
   \<and> (fitz_open w file_path = Inr doc \<and> list_all get_text_ok (pages doc)
        \<and> doc_close doc = None
        \<and> (list_all (\<lambda>pg. \<not> ocr_raised pg) (pages doc) \<or> stderr_writable w) \<longrightarrow>
       (\<exists>d err'. extract_text_from_pdf w file_path = (Inr d, err') \<and> success_record d
          \<and> map_of d ''pages_processed'' = Some (PyInt (int (length (pages doc))))))"
proof -
  have "\<exists>d err'. extract_text_from_pdf w file_path = (Inr d, err') \<and> success_record d
          \<and> map_of d ''pages_processed'' = Some (PyInt (int (length (pages doc))))"
    if "fitz_open w file_path = Inr doc" "list_all get_text_ok (pages doc)" "doc_close doc = None"
      "list_all (\<lambda>pg. \<not> ocr_raised pg) (pages doc) \<or> stderr_writable w"
  proof -
    from pdf_succeeds[OF that] obtain d err' where
      r: "extract_text_from_pdf w file_path = (Inr d, err')" "success_record d" by blast
    from pdf_success_shape[OF r] that(1) r show ?thesis by auto
  qed
  then show ?thesis
    using ocr_nothing_step[of pg w rest page_num v err]
      ocr_raised_step[of pg page_num w err rest v] by blast
qed

theorem ocr_failure_is_local_witness:
  "ocr_raised \<lparr>get_text = Inr [],
        image_to_string = Inl (Exception (lit ''tesseract is not installed''))\<rparr>
   \<and> stderr_writable demo_world
   \<and> extract_text_from_pdf demo_world (lit ''torn.pdf'')
       = (Inr [(''text'', PyStr (lit ''Page two'')), (''pages_processed'', PyInt 2),
               (''ocr_pages'', PyInt 0), (''length'', PyInt 8),
               (''method'', PyStr (lit ''PyMuPDF + OCR''))],
          [lit ''OCR failed for page 0: tesseract is not installed''])
   \<and> ocr_gave_nothing \<lparr>get_text = Inr [], image_to_string = Inr []\<rparr>
   \<and> pdf_loop demo_world [\<lparr>get_text = Inr [], image_to_string = Inr []\<rparr>] 0
        \<lparr>full_text = [], pages_processed = 0, ocr_pages = 0\<rparr> []
       = (Inr \<lparr>full_text = [], pages_processed = 1, ocr_pages = 0\<rparr>, [])"
proof -
  let ?pg = "\<lparr>get_text = Inr [],
        image_to_string = Inl (Exception (lit ''tesseract is not installed''))\<rparr>"
  let ?pg2 = "\<lparr>get_text = Inr (lit ''Page two''), image_to_string = Inr []\<rparr>"
  let ?pg3 = "\<lparr>get_text = Inr [], image_to_string = Inr []\<rparr>"
  let ?v = "\<lparr>full_text = [], pages_processed = 0, ocr_pages = 0\<rparr>"
  have a: "ocr_raised ?pg" by (simp add: ocr_raised_def ocr_invoked_def strip_examples)
  have b: "fitz_open demo_world (lit ''torn.pdf'') = Inr \<lparr>pages = [?pg, ?pg2], doc_close = None\<rparr>"
    by (simp add: demo_world_def demo_pdf_def lit_inj)
  have c: "list_all get_text_ok (pages \<lparr>pages = [?pg, ?pg2], doc_close = None\<rparr>)"
    by (simp add: get_text_ok_def)
  have d: "stderr_writable demo_world" by (simp add: stderr_writable_def demo_world_def)
  have e: "ocr_gave_nothing ?pg3"
    by (simp add: ocr_gave_nothing_def ocr_invoked_def strip_examples)
  from ocr_failure_is_local [of ?pg demo_world "[?pg2]" 0 ?v "[]"
      "lit ''torn.pdf''" "\<lparr>pages = [?pg, ?pg2], doc_close = None\<rparr>"]
    ocr_failure_is_local [of ?pg3 demo_world "[]" 0 ?v "[]"] a b c d e
  show ?thesis by (simp add: torn_pdf_result)
qed

text \<open>
  The claim C7 as stated fails in two ways. On the page of \<open>empty.pdf\<close> OCR is invoked
  and yields nothing, and nothing is recorded: no line is printed to \<open>sys.stderr\<close>. And
  in \<open>full_world\<close>, where \<open>sys.stderr\<close> cannot be written, the OCR step that raises on the
  first page of \<open>torn.pdf\<close> ends the extraction with the document-level error record,
  although every page can be loaded and the second page has a text layer.
\<close>

theorem ocr_failure_counterexample:
  "fitz_open demo_world (lit ''empty.pdf'') = Inr (one_page (Inr []) (Inr []))
   \<and> list_all ocr_gave_nothing (pages (one_page (Inr []) (Inr [])))
   \<and> snd (extract_text_from_pdf demo_world (lit ''empty.pdf'')) = []
   \<and> fitz_open full_world (lit ''torn.pdf'')
       = Inr \<lparr>pages = [\<lparr>get_text = Inr [],
                         image_to_string = Inl (Exception (lit ''tesseract is not installed''))\<rparr>,
                       \<lparr>get_text = Inr (lit ''Page two''), image_to_string = Inr []\<rparr>],
              doc_close = None\<rparr>
   \<and> ocr_raised \<lparr>get_text = Inr [],
        image_to_string = Inl (Exception (lit ''tesseract is not installed''))\<rparr>
   \<and> extract_text_from_pdf full_world (lit ''torn.pdf'')
       = (Inr [(''error'', PyStr (lit ''PDF extraction failed: ''
                  @ lit ''[Errno 28] No space left on device''))], [])"
  by (simp add: empty_pdf_result torn_pdf_full_result)
     (simp add: full_world_def demo_world_def demo_pdf_def lit_inj one_page_def
        ocr_gave_nothing_def ocr_raised_def ocr_invoked_def strip_examples)

section \<open>The claim about structured documents\<close>

lemma trim_ends_Nil_iff: "trim_ends P xs = [] \<longleftrightarrow> (\<forall>x\<in>set xs. P x)"
proof
  assume "\<forall>x\<in>set xs. P x"
  then have h: "dropWhile P xs = []" by (simp only: dropWhile_eq_Nil_conv)
  show "trim_ends P xs = []" unfolding trim_ends_def h by simp
next
  assume e: "trim_ends P xs = []"
  show "\<forall>x\<in>set xs. P x"
  proof (rule ccontr)
    assume "\<not> (\<forall>x\<in>set xs. P x)"
    then have ne: "dropWhile P xs \<noteq> []" by simp
    then have "\<not> P (hd (dropWhile P xs))" by (rule hd_dropWhile)
    moreover from ne have "hd (dropWhile P xs) \<in> set (rev (dropWhile P xs))" by simp
    ultimately have "dropWhile P (rev (dropWhile P xs)) \<noteq> []" by auto
    with e show False unfolding trim_ends_def by simp
  qed
qed

lemma strip_Nil_iff: "strip s = [] \<longleftrightarrow> (\<forall>c\<in>set s. isspace c)"
  by (simp add: strip_trim trim_ends_Nil_iff)

lemma line_in_join_nl: "l \<in> set ls \<Longrightarrow> set l \<subseteq> set (join_nl ls)"
  by (induction ls) (auto simp: join_nl_Cons)

lemma join_nl_Nil_iff: "join_nl ls = [] \<longleftrightarrow> ls = [] \<or> ls = [[]]"
  by (cases ls) (auto simp: join_nl_Cons)

lemma paragraphs_text_nonblank:
  assumes "join_nl (filter (\<lambda>t. strip t \<noteq> []) texts) \<noteq> []"
  shows "strip (join_nl (filter (\<lambda>t. strip t \<noteq> []) texts)) \<noteq> []"
proof -
  from assms have "filter (\<lambda>t. strip t \<noteq> []) texts \<noteq> []" by auto
  then obtain l where l: "l \<in> set (filter (\<lambda>t. strip t \<noteq> []) texts)"
    by (cases "filter (\<lambda>t. strip t \<noteq> []) texts") auto
  then have "strip l \<noteq> []" by simp
  then obtain c where "c \<in> set l" "\<not> isspace c" by (auto simp: strip_Nil_iff)
  with line_in_join_nl[OF l] show ?thesis by (auto simp: strip_Nil_iff)
qed

lemma ext_report: "lower tab (snd (splitext (lit ''report.docx''))) = lit ''.docx''"
  by (simp add: lit_def splitext_def rfind_def skip_dots.simps lower_def ascii_lower_def)

lemma clean_report:
  "clean_extracted_text tab (join_nl [lit ''One'', lit ''Two'', lit ''Three''])
     = [79, 110, 101, 10, 84, 119, 111, 10, 84, 104, 114, 101, 101]"
  by (simp add: clean_extracted_text_def keep_char_def isprintable_def strip_def
        lstrip_def rstrip_def isspace_def lit_def)

text \<open>
  C8. For a structured (docx) document whose structured extraction yields non-empty
  text, the result carries the label of the structured strategy, which in the program
  is the string \<open>python-docx\<close>, and \<open>paragraphs\<close> is the number of paragraphs with
  content other than whitespace; paragraphs of whitespace only are left out. Nothing is
  printed. In the example a document with three paragraphs with content and one of
  whitespace gives \<open>paragraphs = 3\<close>.
\<close>

theorem docx_paragraphs_counted:
  assumes "lower (lower_tab w) (snd (splitext file_path)) = lit ''.docx''"
    and "docx_Document w file_path = Inr texts"
    and "join_nl (filter (\<lambda>t. strip t \<noteq> []) texts) \<noteq> []"
  shows "\<exists>clean_text.
           extract_text w file_path
             = (Inr [(''text'', PyStr clean_text),
                     (''paragraphs'', PyInt (int (length (filter (\<lambda>t. strip t \<noteq> []) texts)))),
                     (''length'', PyInt (int (length clean_text))),
                     (''method'', PyStr (lit ''python-docx''))], [])
           \<and> extract_text_from_doc w file_path = extract_text w file_path"
  using assms paragraphs_text_nonblank[OF assms(3)]
  by (simp add: extract_text_def extract_text_try_def extract_text_from_doc_def
        extract_text_from_doc_try_def Let_def lit_inj)

theorem docx_paragraphs_counted_witness:
  "docx_Document demo_world (lit ''report.docx'')
     = Inr [lit ''One'', lit ''  '', lit ''Two'', lit ''Three'']
   \<and> map_of (projr (fst (extract_text demo_world (lit ''report.docx'')))) ''paragraphs''
       = Some (PyInt 3)
   \<and> map_of (projr (fst (extract_text demo_world (lit ''report.docx'')))) ''method''
       = Some (PyStr (lit ''python-docx''))"
proof -
  have a: "docx_Document demo_world (lit ''report.docx'')
     = Inr [lit ''One'', lit ''  '', lit ''Two'', lit ''Three'']"
    by (simp add: demo_world_def)
  have b: "filter (\<lambda>t. strip t \<noteq> []) [lit ''One'', lit ''  '', lit ''Two'', lit ''Three'']
     = [lit ''One'', lit ''Two'', lit ''Three'']"
    by (simp add: strip_examples lit_not_Nil)
  have c: "join_nl [lit ''One'', lit ''Two'', lit ''Three''] \<noteq> []"
    by (simp add: lit_def)
  from docx_paragraphs_counted [of demo_world "lit ''report.docx''", OF ext_report a] b c
  show ?thesis using a by auto
qed


end
